theory Spec2Isabelle
  imports Main "HOL-Library.Sublist"
begin

section \<open>Python values used by the pipeline\<close>

text \<open>
  Python strings are modelled as \<^typ>\<open>string\<close>. The test \<^verbatim>\<open>needle in text\<close> on two strings is
  \<^const>\<open>sublist\<close> (contiguous occurrence) and \<^verbatim>\<open>text.endswith(s)\<close> is \<^const>\<open>suffix\<close>.

  Exceptions carry the class that decides which \<^verbatim>\<open>except\<close> clause catches them and the text
  that \<^verbatim>\<open>str(e)\<close> gives. \<^verbatim>\<open>requests.exceptions.ConnectTimeout\<close> derives from both
  \<^verbatim>\<open>ConnectionError\<close> and \<^verbatim>\<open>Timeout\<close>; the clause for \<^verbatim>\<open>ConnectionError\<close> comes first in
  \<^verbatim>\<open>call_llm\<close>, so it counts as \<open>ConnectionError\<close> here. \<open>RequestError\<close> stands for the
  remaining failures of the request (the \<^verbatim>\<open>HTTPError\<close> of \<^verbatim>\<open>raise_for_status\<close>, a body
  that is not JSON, a missing \<^verbatim>\<open>"response"\<close> key); \<open>PlainException\<close> is \<^verbatim>\<open>Exception\<close> itself.
\<close>

datatype exn_class =
    ConnectionError | Timeout | RequestError
  | OSError | UnicodeDecodeError | TypeError | PlainException

datatype exn = Exn (cls: exn_class) (msg: string)

text \<open>
  Captured process output is a \<^verbatim>\<open>bytes\<close> object. \<^verbatim>\<open>decode()\<close> either yields the text the
  bytes encode in UTF-8 or raises \<^verbatim>\<open>UnicodeDecodeError\<close>; the code looks at the bytes in no
  other way.
\<close>

datatype bytes = Encoded string | Malformed

fun decode :: "bytes \<Rightarrow> exn + string" where
  "decode (Encoded s) = Inr s"
| "decode Malformed = Inl (Exn UnicodeDecodeError ''invalid start byte'')"

section \<open>The world the program runs in\<close>

text \<open>
  The directory tree: a file has a name and a content, a directory a name and its
  entries, in the order in which the operating system lists them.
\<close>

datatype entry = File string string | Dir string "entry list"

datatype payload = Payload (p_model: string) (p_prompt: string) (p_stream: bool)

text \<open>
  The body of the \<^verbatim>\<open>try\<close> in \<^verbatim>\<open>call_llm\<close> (the request, \<^verbatim>\<open>raise_for_status\<close>, the
  \<^verbatim>\<open>"response"\<close> field of the JSON body) either yields the completion or raises.
\<close>

datatype http_outcome = Completion string | Raises exn

text \<open>
  \<^verbatim>\<open>subprocess.run\<close> either cannot start the tool (the binary is missing) or the tool
  runs to its end with an exit status and its two output streams.
\<close>

datatype proc_outcome = Exited int bytes bytes | CannotStart exn

datatype event =
    HttpPost string payload nat
  | Sleep nat
  | LlmCall string
  | Makedirs string
  | Run "string list" string

text \<open>
  \<open>http w i\<close> is what the \<open>i\<close>-th request of the run meets and \<open>posts w\<close> counts the
  requests made so far. The external tools are opaque: \<open>tool w argv cwd\<close> is the outcome of
  running \<open>argv\<close> in the directory \<open>cwd\<close>, and \<open>effect w argv cwd\<close> is what a tool that runs does
  to the directory tree. The program runs no command line twice, so functions of the command
  line describe every behaviour of the tools. \<open>trace w\<close> records requests, delays, calls of
  the model client, directory creations and tool runs in order. Console output is not
  modelled.
\<close>

record world =
  fs :: "entry list"
  http :: "nat \<Rightarrow> http_outcome"
  posts :: nat
  tool :: "string list \<Rightarrow> string \<Rightarrow> proc_outcome"
  effect :: "string list \<Rightarrow> string \<Rightarrow> entry list \<Rightarrow> entry list"
  trace :: "event list"

definition emit :: "event \<Rightarrow> world \<Rightarrow> world" where
  "emit e w = w\<lparr>trace := trace w @ [e]\<rparr>"


section \<open>Paths (posixpath)\<close>

definition path_join :: "string \<Rightarrow> string \<Rightarrow> string" where
  "path_join a b =
     (if prefix ''/'' b then b
      else if a = [] \<or> suffix ''/'' a then a @ b
      else a @ ''/'' @ b)"

definition basename :: "string \<Rightarrow> string" where
  "basename p = rev (takeWhile (\<lambda>c. c \<noteq> CHR ''/'') (rev p))"

definition dirname :: "string \<Rightarrow> string" where
  "dirname p =
     (let head = rev (dropWhile (\<lambda>c. c \<noteq> CHR ''/'') (rev p))
      in if head \<noteq> [] \<and> filter (\<lambda>c. c \<noteq> CHR ''/'') head \<noteq> []
         then rev (dropWhile (\<lambda>c. c = CHR ''/'') (rev head))
         else head)"

text \<open>The segments of a path: the pieces between its slashes, as \<^verbatim>\<open>p.split("/")\<close> gives them.\<close>

fun split_path :: "string \<Rightarrow> string list" where
  "split_path [] = [[]]"
| "split_path (c # cs) =
     (if c = CHR ''/'' then [] # split_path cs
      else (case split_path cs of [] \<Rightarrow> [[c]] | s # ss \<Rightarrow> (c # s) # ss))"

section \<open>The file system\<close>

text \<open>
  A path is resolved from the root of the tree along its non-empty segments; \<^verbatim>\<open>.\<close>,
  \<^verbatim>\<open>..\<close>, symbolic links and permissions are not modelled. An entry created in a directory
  is listed after the entries that were there.
\<close>

definition components :: "string \<Rightarrow> string list" where
  "components p = filter (\<lambda>s. s \<noteq> []) (split_path p)"

fun entry_name :: "entry \<Rightarrow> string" where
  "entry_name (File n c) = n"
| "entry_name (Dir n es) = n"

datatype node = IsFile string | IsDir "entry list"

fun find_entry :: "string \<Rightarrow> entry list \<Rightarrow> entry option" where
  "find_entry n [] = None"
| "find_entry n (e # es) = (if entry_name e = n then Some e else find_entry n es)"

fun put_entry :: "entry \<Rightarrow> entry list \<Rightarrow> entry list" where
  "put_entry e [] = [e]"
| "put_entry e (x # xs) = (if entry_name x = entry_name e then e # xs else x # put_entry e xs)"

fun resolve :: "string list \<Rightarrow> entry list \<Rightarrow> node option" where
  "resolve [] es = Some (IsDir es)"
| "resolve (c # cs) es =
     (case find_entry c es of
        None \<Rightarrow> None
      | Some (File n content) \<Rightarrow> (if cs = [] then Some (IsFile content) else None)
      | Some (Dir n ch) \<Rightarrow> resolve cs ch)"

fun put_file :: "string list \<Rightarrow> string \<Rightarrow> entry list \<Rightarrow> exn + entry list" where
  "put_file [] content es = Inl (Exn OSError ''Is a directory'')"
| "put_file [n] content es =
     (case find_entry n es of
        Some (Dir _ _) \<Rightarrow> Inl (Exn OSError ''Is a directory'')
      | _ \<Rightarrow> Inr (put_entry (File n content) es))"
| "put_file (d # cs) content es =
     (case find_entry d es of
        None \<Rightarrow> Inl (Exn OSError ''No such file or directory'')
      | Some (File _ _) \<Rightarrow> Inl (Exn OSError ''Not a directory'')
      | Some (Dir _ ch) \<Rightarrow>
          (case put_file cs content ch of
             Inl e \<Rightarrow> Inl e
           | Inr ch' \<Rightarrow> Inr (put_entry (Dir d ch') es)))"

fun mkdirs :: "string list \<Rightarrow> entry list \<Rightarrow> exn + entry list" where
  "mkdirs [] es = Inr es"
| "mkdirs (d # cs) es =
     (case find_entry d es of
        Some (File _ _) \<Rightarrow>
          Inl (Exn OSError (if cs = [] then ''File exists'' else ''Not a directory''))
      | Some (Dir _ ch) \<Rightarrow>
          (case mkdirs cs ch of
             Inl e \<Rightarrow> Inl e
           | Inr ch' \<Rightarrow> Inr (put_entry (Dir d ch') es))
      | None \<Rightarrow>
          (case mkdirs cs [] of
             Inl e \<Rightarrow> Inl e
           | Inr ch' \<Rightarrow> Inr (put_entry (Dir d ch') es)))"

definition dir_at :: "string \<Rightarrow> entry list \<Rightarrow> bool" where
  "dir_at p t = (case resolve (components p) t of Some (IsDir _) \<Rightarrow> True | _ \<Rightarrow> False)"

definition is_dir :: "string \<Rightarrow> world \<Rightarrow> bool" where
  "is_dir p w = dir_at p (fs w)"

text \<open>\<^verbatim>\<open>os.makedirs(p, exist_ok=True)\<close>\<close>

definition os_makedirs :: "string \<Rightarrow> world \<Rightarrow> (exn + unit) \<times> world" where
  "os_makedirs p w =
     (let w1 = emit (Makedirs p) w
      in case mkdirs (components p) (fs w1) of
           Inl e \<Rightarrow> (Inl e, w1)
         | Inr t \<Rightarrow> (Inr (), w1\<lparr>fs := t\<rparr>))"

definition os_listdir :: "string \<Rightarrow> world \<Rightarrow> exn + string list" where
  "os_listdir p w =
     (case resolve (components p) (fs w) of
        None \<Rightarrow> Inl (Exn OSError ''No such file or directory'')
      | Some (IsFile _) \<Rightarrow> Inl (Exn OSError ''Not a directory'')
      | Some (IsDir es) \<Rightarrow> Inr (map entry_name es))"

text \<open>
  \<^verbatim>\<open>os.walk(top)\<close>, top down: the triple of a directory (its path, the names of its
  directories, the names of its other entries), then the walk of each of its directories
  in the listed order, at the path joined with the directory's name. A start that cannot
  be listed yields nothing.
\<close>

fun walk :: "string \<Rightarrow> entry list \<Rightarrow> (string \<times> string list \<times> string list) list" where
  "walk root es =
     (root, [n. Dir n ch \<leftarrow> es], [n. File n c \<leftarrow> es])
     # concat (map (\<lambda>e. case e of Dir n ch \<Rightarrow> walk (path_join root n) ch | File n c \<Rightarrow> []) es)"

definition os_walk :: "string \<Rightarrow> world \<Rightarrow> (string \<times> string list \<times> string list) list" where
  "os_walk start w =
     (case resolve (components start) (fs w) of
        Some (IsDir es) \<Rightarrow> walk start es
      | _ \<Rightarrow> [])"

definition subprocess_run :: "string list \<Rightarrow> string \<Rightarrow> world \<Rightarrow> proc_outcome \<times> world" where
  "subprocess_run argv cwd w =
     (case tool w argv cwd of
        CannotStart e \<Rightarrow> (CannotStart e, emit (Run argv cwd) w)
      | Exited rc out err \<Rightarrow>
          (Exited rc out err, (emit (Run argv cwd) w)\<lparr>fs := effect w argv cwd (fs w)\<rparr>))"

section \<open>The model client (llm\_client.py)\<close>

definition OLLAMA_API_URL :: string where
  "OLLAMA_API_URL = ''http://localhost:11434/api/generate''"

definition requests_post :: "string \<Rightarrow> payload \<Rightarrow> nat \<Rightarrow> world \<Rightarrow> http_outcome \<times> world" where
  "requests_post url body tmo w =
     (http w (posts w), (emit (HttpPost url body tmo) w)\<lparr>posts := Suc (posts w)\<rparr>)"

definition sleep :: "nat \<Rightarrow> world \<Rightarrow> world" where
  "sleep secs w = emit (Sleep secs) w"

definition unreachable_error :: exn where
  "unreachable_error =
     Exn PlainException ''Failed to connect to Ollama. Make sure Ollama is running on localhost:11434''"

definition timed_out_error :: exn where
  "timed_out_error = Exn PlainException ''LLM request timed out''"

definition api_error :: "exn \<Rightarrow> exn" where
  "api_error e = Exn PlainException (''LLM API error: '' @ msg e)"

text \<open>
  The \<^verbatim>\<open>for attempt in range(max_retries)\<close> loop, entered at \<open>attempt\<close>. A loop that ends
  without \<^verbatim>\<open>return\<close> or \<^verbatim>\<open>raise\<close> makes the function return \<^verbatim>\<open>None\<close>.
\<close>

function call_llm_loop ::
  "payload \<Rightarrow> int \<Rightarrow> int \<Rightarrow> world \<Rightarrow> (exn + string option) \<times> world" where
  "call_llm_loop body max_retries attempt w =
     (if attempt < max_retries then
        (case requests_post OLLAMA_API_URL body 60 w of
           (Completion text, w1) \<Rightarrow> (Inr (Some text), w1)
         | (Raises e, w1) \<Rightarrow>
             if cls e = ConnectionError then
               (if attempt < max_retries - 1
                then call_llm_loop body max_retries (attempt + 1) (sleep 2 w1)
                else (Inl unreachable_error, w1))
             else if cls e = Timeout then
               (if attempt < max_retries - 1
                then call_llm_loop body max_retries (attempt + 1) (sleep 1 w1)
                else (Inl timed_out_error, w1))
             else (Inl (api_error e), w1))
      else (Inr None, w))"
  by pat_completeness auto
termination
  by (relation "measure (\<lambda>(body, max_retries, attempt, w). nat (max_retries - attempt))") auto

declare call_llm_loop.simps [simp del]

definition call_llm :: "string \<Rightarrow> string \<Rightarrow> int \<Rightarrow> world \<Rightarrow> (exn + string option) \<times> world" where
  "call_llm prompt model max_retries w =
     call_llm_loop (Payload model prompt False) max_retries 0 (emit (LlmCall prompt) w)"


section \<open>The build adapter (build\_utils.py)\<close>

text \<open>
  With \<^verbatim>\<open>check=True\<close> a non-zero exit status raises \<^verbatim>\<open>CalledProcessError\<close>, which the
  \<^verbatim>\<open>except\<close> clause of \<^verbatim>\<open>build_project\<close> turns into \<^verbatim>\<open>(False, e.stderr.decode())\<close>. A tool
  that cannot be started, a directory that cannot be created and output that cannot be
  decoded raise other exceptions, which leave the function.
\<close>

definition called_process_error :: "bytes \<Rightarrow> exn + bool \<times> string" where
  "called_process_error err = (case decode err of Inl e \<Rightarrow> Inl e | Inr s \<Rightarrow> Inr (False, s))"

definition cmake_cmd :: "string \<Rightarrow> string list" where
  "cmake_cmd project_dir = [''cmake'', project_dir]"

definition make_cmd :: "string list" where
  "make_cmd = [''cmake'', ''--build'', ''.'']"

definition build_project :: "string \<Rightarrow> string \<Rightarrow> world \<Rightarrow> (exn + bool \<times> string) \<times> world" where
  "build_project project_dir build_dir w =
     (case os_makedirs build_dir w of
        (Inl e, w1) \<Rightarrow> (Inl e, w1)
      | (Inr _, w1) \<Rightarrow>
          (case subprocess_run (cmake_cmd project_dir) build_dir w1 of
             (CannotStart e, w2) \<Rightarrow> (Inl e, w2)
           | (Exited rc out err, w2) \<Rightarrow>
               if rc \<noteq> 0 then (called_process_error err, w2)
               else
                 (case subprocess_run make_cmd build_dir w2 of
                    (CannotStart e, w3) \<Rightarrow> (Inl e, w3)
                  | (Exited rc2 out2 err2, w3) \<Rightarrow>
                      if rc2 \<noteq> 0 then (called_process_error err2, w3)
                      else
                        (case decode out2 of
                           Inl e \<Rightarrow> (Inl e, w3)
                         | Inr s \<Rightarrow> (Inr (True, s), w3)))))"

definition test_cmd :: "string list" where
  "test_cmd = [''ctest'', ''--output-on-failure'']"

definition run_tests :: "string \<Rightarrow> world \<Rightarrow> (exn + bool \<times> string) \<times> world" where
  "run_tests build_dir w =
     (case subprocess_run test_cmd build_dir w of
        (CannotStart e, w1) \<Rightarrow> (Inl e, w1)
      | (Exited rc out err, w1) \<Rightarrow>
          (case decode out of
             Inl e \<Rightarrow> (Inl e, w1)
           | Inr so \<Rightarrow>
               (case decode err of
                  Inl e \<Rightarrow> (Inl e, w1)
                | Inr se \<Rightarrow> (Inr (rc = 0, so @ se), w1))))"

text \<open>
  The two tools of \<^verbatim>\<open>run_coverage\<close> run without \<^verbatim>\<open>check\<close>: their exit status is not looked
  at.
\<close>

definition coverage_cmd :: "string list" where
  "coverage_cmd =
     [''lcov'', ''--capture'', ''--directory'', ''.'', ''--output-file'', ''coverage.info'']"

definition genhtml_cmd :: "string list" where
  "genhtml_cmd = [''genhtml'', ''coverage.info'', ''--output-directory'', ''coverage'']"

definition run_coverage :: "string \<Rightarrow> world \<Rightarrow> (exn + string) \<times> world" where
  "run_coverage build_dir w =
     (case subprocess_run coverage_cmd build_dir w of
        (CannotStart e, w1) \<Rightarrow> (Inl e, w1)
      | (Exited rc out err, w1) \<Rightarrow>
          (case subprocess_run genhtml_cmd build_dir w1 of
             (CannotStart e, w2) \<Rightarrow> (Inl e, w2)
           | (Exited rc2 out2 err2, w2) \<Rightarrow>
               (Inr (path_join build_dir ''coverage/index.html''), w2)))"

section \<open>The pipeline driver (main.py)\<close>

definition read_file :: "string \<Rightarrow> world \<Rightarrow> exn + string" where
  "read_file path w =
     (case resolve (components path) (fs w) of
        None \<Rightarrow> Inl (Exn OSError ''No such file or directory'')
      | Some (IsDir _) \<Rightarrow> Inl (Exn OSError ''Is a directory'')
      | Some (IsFile content) \<Rightarrow> Inr content)"

text \<open>
  \<^verbatim>\<open>open(path, "w")\<close> creates or empties the file; \<^verbatim>\<open>f.write(None)\<close> then raises
  \<^verbatim>\<open>TypeError\<close> and leaves the file empty.
\<close>

definition write_file :: "string \<Rightarrow> string option \<Rightarrow> world \<Rightarrow> (exn + unit) \<times> world" where
  "write_file path content w =
     (case put_file (components path) (case content of None \<Rightarrow> [] | Some text \<Rightarrow> text) (fs w) of
        Inl e \<Rightarrow> (Inl e, w)
      | Inr t \<Rightarrow>
          (case content of
             None \<Rightarrow> (Inl (Exn TypeError ''write() argument must be str, not None''), w\<lparr>fs := t\<rparr>)
           | Some text \<Rightarrow> (Inr (), w\<lparr>fs := t\<rparr>)))"

definition has_source_suffix :: "string \<Rightarrow> bool" where
  "has_source_suffix name = (suffix ''.cc'' name \<or> suffix ''.cpp'' name)"

definition collect_cpp_files :: "string \<Rightarrow> world \<Rightarrow> string list" where
  "collect_cpp_files project_dir w =
     concat (map (\<lambda>(root, dirs, files).
                    if sublist ''third_party'' root then []
                    else map (path_join root) (filter has_source_suffix files))
                 (os_walk project_dir w))"

definition test_file_path :: "string \<Rightarrow> string \<Rightarrow> string" where
  "test_file_path test_dir cpp_file = path_join test_dir (''test_'' @ basename cpp_file)"

definition newline :: string where
  "newline = [CHR 0x0A]"

text \<open>One round of the first loop of \<^verbatim>\<open>main\<close>; any exception skips the file.\<close>

definition generate_test :: "string \<Rightarrow> string \<Rightarrow> string \<Rightarrow> world \<Rightarrow> world" where
  "generate_test yaml_dir test_dir cpp_file w =
     (case read_file cpp_file w of
        Inl e \<Rightarrow> w
      | Inr code \<Rightarrow>
          (case read_file (path_join yaml_dir ''initial.yaml'') w of
             Inl e \<Rightarrow> w
           | Inr yaml_prompt \<Rightarrow>
               (case call_llm (yaml_prompt @ newline @ newline @ ''C++ Source File:'' @ newline @ code)
                       ''phi3:mini'' 3 w of
                  (Inl e, w1) \<Rightarrow> w1
                | (Inr test_code, w1) \<Rightarrow>
                    snd (write_file (test_file_path test_dir cpp_file) test_code w1))))"

text \<open>One round of the second loop of \<^verbatim>\<open>main\<close>.\<close>

definition refine_test :: "string \<Rightarrow> string \<Rightarrow> string \<Rightarrow> world \<Rightarrow> world" where
  "refine_test yaml_dir test_dir test_file w =
     (case read_file (path_join test_dir test_file) w of
        Inl e \<Rightarrow> w
      | Inr test_code \<Rightarrow>
          (case read_file (path_join yaml_dir ''refine.yaml'') w of
             Inl e \<Rightarrow> w
           | Inr yaml_prompt \<Rightarrow>
               (case call_llm (yaml_prompt @ newline @ newline @ ''Test File:'' @ newline @ test_code)
                       ''phi3:mini'' 3 w of
                  (Inl e, w1) \<Rightarrow> w1
                | (Inr refined_code, w1) \<Rightarrow>
                    snd (write_file (path_join test_dir test_file) refined_code w1))))"

text \<open>
  Steps 3 and 4 of \<^verbatim>\<open>main\<close> (the spec's stage 4). The result is the exception that ends
  the run, if any: \<^verbatim>\<open>build_project\<close> and \<^verbatim>\<open>run_tests\<close> are called outside any \<^verbatim>\<open>try\<close>.
\<close>

definition build_and_test :: "string \<Rightarrow> string \<Rightarrow> string \<Rightarrow> world \<Rightarrow> exn option \<times> world" where
  "build_and_test yaml_dir project_dir build_dir w =
     (case build_project project_dir build_dir w of
        (Inl e, w1) \<Rightarrow> (Some e, w1)
      | (Inr (build_success, build_log), w1) \<Rightarrow>
          if \<not> build_success then
            (case read_file (path_join yaml_dir ''fix_build.yaml'') w1 of
               Inl e \<Rightarrow> (None, w1)
             | Inr yaml_prompt \<Rightarrow>
                 (None, snd (call_llm (yaml_prompt @ newline @ newline @ ''Build Log:'' @ newline @ build_log)
                                ''phi3:mini'' 3 w1)))
          else
            (case run_tests build_dir w1 of
               (Inl e, w2) \<Rightarrow> (Some e, w2)
             | (Inr (test_success, test_log), w2) \<Rightarrow>
                 if test_success then (None, snd (run_coverage build_dir w2))
                 else (None, w2)))"

definition main :: "string \<Rightarrow> world \<Rightarrow> exn option \<times> world" where
  "main main_file w =
     (let script_dir = dirname main_file;
          project_root = dirname script_dir;
          project_dir = path_join (path_join project_root ''test_projects'') ''orgChartApi-master'';
          test_dir = path_join project_root ''generated_tests'';
          build_dir = path_join project_root ''build'';
          yaml_dir = path_join script_dir ''yaml_prompts''
      in case os_makedirs test_dir w of
           (Inl e, w1) \<Rightarrow> (Some e, w1)
         | (Inr _, w1) \<Rightarrow>
             (let cpp_files = collect_cpp_files project_dir w1;
                  w2 = fold (generate_test yaml_dir test_dir) cpp_files w1
              in case os_listdir test_dir w2 of
                   Inl e \<Rightarrow> (Some e, w2)
                 | Inr names \<Rightarrow>
                     (let test_files = filter has_source_suffix names;
                          w3 = fold (refine_test yaml_dir test_dir) test_files w2
                      in build_and_test yaml_dir project_dir build_dir w3)))"

section \<open>Notions used to state the properties\<close>

text \<open>The events that a run adds to the trace of the world it started in.\<close>

definition events_since :: "world \<Rightarrow> world \<Rightarrow> event list" where
  "events_since w w' = drop (length (trace w)) (trace w')"

fun llm_prompts :: "event list \<Rightarrow> string list" where
  "llm_prompts [] = []"
| "llm_prompts (LlmCall prompt # evs) = prompt # llm_prompts evs"
| "llm_prompts (ev # evs) = llm_prompts evs"

fun tools_run :: "event list \<Rightarrow> string list" where
  "tools_run [] = []"
| "tools_run (Run argv cwd # evs) = (case argv of [] \<Rightarrow> [] | name # args \<Rightarrow> [name]) @ tools_run evs"
| "tools_run (ev # evs) = tools_run evs"

fun refused :: "http_outcome \<Rightarrow> bool" where
  "refused (Raises e) = (cls e = ConnectionError)"
| "refused (Completion text) = False"

fun transient :: "http_outcome \<Rightarrow> bool" where
  "transient (Raises e) = (cls e = ConnectionError \<or> cls e = Timeout)"
| "transient (Completion text) = False"

text \<open>
  What \<open>k\<close> refused attempts leave in the trace: the request, and before each further
  request the delay of 2 seconds.
\<close>

definition refused_trace :: "payload \<Rightarrow> nat \<Rightarrow> event list" where
  "refused_trace body k =
     concat (replicate (k - 1) [HttpPost OLLAMA_API_URL body 60, Sleep 2])
     @ [HttpPost OLLAMA_API_URL body 60]"

text \<open>
  A directory tree as a file system has it: a name is not empty and has no slash, and the
  entries of one directory have different names.
\<close>

definition valid_name :: "string \<Rightarrow> bool" where
  "valid_name n = (n \<noteq> [] \<and> CHR ''/'' \<notin> set n)"

fun well_formed :: "entry list \<Rightarrow> bool" where
  "well_formed es =
     (distinct (map entry_name es) \<and>
      (\<forall>e \<in> set es. valid_name (entry_name e) \<and>
                     (case e of File n c \<Rightarrow> True | Dir n ch \<Rightarrow> well_formed ch)))"

declare well_formed.simps [simp del]

text \<open>
  What the loop of \<^verbatim>\<open>collect_cpp_files\<close> collects from the walk of a directory with the
  entries \<open>es\<close>, walked at the path \<open>start\<close>; and the text that \<^verbatim>\<open>os.path.join\<close> puts before
  a name joined to the path \<open>a\<close>.
\<close>

definition found_in :: "string \<Rightarrow> entry list \<Rightarrow> string list" where
  "found_in start es =
     concat (map (\<lambda>(root, dirs, files).
                    if sublist ''third_party'' root then []
                    else map (path_join root) (filter has_source_suffix files))
                 (walk start es))"

definition dir_prefix :: "string \<Rightarrow> string" where
  "dir_prefix a = (if a = [] \<or> suffix ''/'' a then a else a @ ''/'')"

section \<open>Concrete worlds\<close>

fun refusing :: "nat \<Rightarrow> http_outcome" where
  "refusing i = Raises (Exn ConnectionError ''Connection refused'')"

fun no_tool :: "string list \<Rightarrow> string \<Rightarrow> proc_outcome" where
  "no_tool argv cwd = CannotStart (Exn OSError ''No such file or directory'')"

fun no_effect :: "string list \<Rightarrow> string \<Rightarrow> entry list \<Rightarrow> entry list" where
  "no_effect argv cwd t = t"

definition refusing_world :: world where
  "refusing_world =
     \<lparr>fs = [], http = refusing, posts = 0, tool = no_tool, effect = no_effect, trace = []\<rparr>"

text \<open>A service that times out, then refuses the connection, then answers with status 500.\<close>

fun failing_service :: "nat \<Rightarrow> http_outcome" where
  "failing_service i =
     (if i = 0 then Raises (Exn Timeout ''Read timed out'')
      else if i = 1 then Raises (Exn ConnectionError ''Connection refused'')
      else Raises (Exn RequestError ''500 Server Error: Internal Server Error''))"

definition failing_world :: world where
  "failing_world =
     \<lparr>fs = [], http = failing_service, posts = 0, tool = no_tool, effect = no_effect, trace = []\<rparr>"

text \<open>
  A checkout under \<^verbatim>\<open>/repo\<close> with the three templates and a project of five source
  files, and tools that print fixed texts and exit with the given status: \<open>c\<close> for the
  configure step, \<open>b\<close> for the build step, \<open>t\<close> for the test runner; the coverage tools
  exit with status 1. A run of \<^verbatim>\<open>cmake\<close> leaves \<^verbatim>\<open>CMakeCache.txt\<close> in its working directory;
  the other tools write nothing. The service answers every request.
\<close>

definition repo_fs :: "entry list" where
  "repo_fs =
     [Dir ''repo''
        [Dir ''src''
           [File ''main.py'' [],
            Dir ''yaml_prompts''
              [File ''initial.yaml'' ''Write unit tests.'',
               File ''refine.yaml'' ''Refine the tests.'',
               File ''fix_build.yaml'' ''Fix the build.'']],
         Dir ''test_projects''
           [Dir ''orgChartApi-master''
              [File ''main.cc'' ''int main() {}'',
               Dir ''models'' [File ''User.cc'' ''// model''],
               Dir ''controllers'' [File ''User.cc'' ''// controller''],
               Dir ''third_party'' [Dir ''json'' [File ''json.cpp'' ''// vendored'']],
               Dir ''non_third_party'' [File ''Util.cc'' ''// own code'']]]]]"

fun scripted_tools :: "int \<Rightarrow> int \<Rightarrow> int \<Rightarrow> string list \<Rightarrow> string \<Rightarrow> proc_outcome" where
  "scripted_tools c b t argv cwd =
     (if argv = make_cmd
        then Exited b (Encoded ''built'') (Encoded (if b = 0 then [] else ''error: X''))
      else if take 1 argv = [''cmake'']
        then Exited c (Encoded ''configured'') (Encoded (if c = 0 then [] else ''CMake Error''))
      else if argv = test_cmd
        then Exited t (Encoded ''tests ran'') (Encoded [])
      else Exited 1 (Encoded []) (Encoded []))"

fun cmake_effect :: "string list \<Rightarrow> string \<Rightarrow> entry list \<Rightarrow> entry list" where
  "cmake_effect argv cwd t =
     (if take 1 argv = [''cmake'']
      then (case put_file (components cwd @ [''CMakeCache.txt'']) ''# cache'' t of
              Inl e \<Rightarrow> t
            | Inr t' \<Rightarrow> t')
      else t)"

fun answering :: "nat \<Rightarrow> http_outcome" where
  "answering i = Completion ''TEST(Suite, Case) {}''"

definition repo_world :: "int \<Rightarrow> int \<Rightarrow> int \<Rightarrow> world" where
  "repo_world c b t =
     \<lparr>fs = repo_fs, http = answering, posts = 0, tool = scripted_tools c b t,
      effect = cmake_effect, trace = []\<rparr>"

section \<open>The model client: retries and failures\<close>

lemma loop_refused:
  "a < n \<Longrightarrow> k = nat (n - a) \<Longrightarrow> \<forall>i \<in> {posts w ..< posts w + k}. refused (http w i) \<Longrightarrow>
   call_llm_loop body n a w =
     (Inl unreachable_error, w\<lparr>posts := posts w + k, trace := trace w @ refused_trace body k\<rparr>)"
proof (induction k arbitrary: a w)
  case 0
  then show ?case by simp
next
  case (Suc k)
  from Suc.prems have "refused (http w (posts w))" by simp
  then obtain e where e: "http w (posts w) = Raises e" "cls e = ConnectionError"
    by (cases "http w (posts w)") auto
  show ?case
  proof (cases "a < n - 1")
    case True
    let ?w = "sleep 2 (snd (requests_post OLLAMA_API_URL body 60 w))"
    have k: "k = nat (n - (a + 1))" using Suc.prems by simp
    have "call_llm_loop body n (a + 1) ?w =
      (Inl unreachable_error, ?w\<lparr>posts := posts ?w + k, trace := trace ?w @ refused_trace body k\<rparr>)"
    proof (rule Suc.IH)
      show "a + 1 < n" using True by simp
      show "k = nat (n - (a + 1))" by (rule k)
      show "\<forall>i\<in>{posts ?w..<posts ?w + k}. refused (http ?w i)"
        using Suc.prems(3) by (simp add: sleep_def requests_post_def emit_def)
    qed
    moreover have "k > 0" using True k by simp
    ultimately show ?thesis
      using Suc.prems(1) True e
      apply (subst call_llm_loop.simps)
      apply (simp add: requests_post_def sleep_def emit_def refused_trace_def)
      apply (cases k; simp)
      done
  next
    case False
    then have "k = 0" using Suc.prems by simp
    then show ?thesis
      using Suc.prems(1) False e
      apply (subst call_llm_loop.simps)
      apply (simp add: requests_post_def sleep_def emit_def refused_trace_def)
      done
  qed
qed

text \<open>
  Claim C1, as amended. With \<open>max_retries \<ge> 1\<close>, when each of the next \<open>max_retries\<close> requests
  is refused, \<^verbatim>\<open>call_llm\<close> makes exactly \<open>max_retries\<close> requests, with the delay of 2 seconds
  between two of them and none after the last, and raises the exception whose message
  says that Ollama must be running on localhost:11434.
\<close>

theorem call_llm_refused:
  assumes "1 \<le> max_retries"
    and "\<forall>i \<in> {posts w ..< posts w + nat max_retries}. refused (http w i)"
  shows "call_llm prompt model max_retries w =
     (Inl unreachable_error,
      w\<lparr>posts := posts w + nat max_retries,
        trace := trace w @ LlmCall prompt # refused_trace (Payload model prompt False) (nat max_retries)\<rparr>)"
proof -
  let ?w = "emit (LlmCall prompt) w"
  have "call_llm_loop (Payload model prompt False) max_retries 0 ?w =
     (Inl unreachable_error, ?w\<lparr>posts := posts ?w + nat max_retries,
        trace := trace ?w @ refused_trace (Payload model prompt False) (nat max_retries)\<rparr>)"
    using assms by (intro loop_refused) (simp_all add: emit_def)
  then show ?thesis by (simp add: call_llm_def emit_def)
qed

text \<open>Three refused attempts: three requests, two delays, then the error.\<close>

theorem call_llm_refused_witness:
  "call_llm ''Write tests'' ''phi3:mini'' 3 refusing_world =
     (Inl (Exn PlainException
             ''Failed to connect to Ollama. Make sure Ollama is running on localhost:11434''),
      refusing_world\<lparr>posts := 3,
        trace := [LlmCall ''Write tests'',
                  HttpPost OLLAMA_API_URL (Payload ''phi3:mini'' ''Write tests'' False) 60, Sleep 2,
                  HttpPost OLLAMA_API_URL (Payload ''phi3:mini'' ''Write tests'' False) 60, Sleep 2,
                  HttpPost OLLAMA_API_URL (Payload ''phi3:mini'' ''Write tests'' False) 60]\<rparr>)"
  using call_llm_refused [of 3 refusing_world "''Write tests''" "''phi3:mini''"]
  by (simp add: refusing_world_def refused_trace_def unreachable_error_def numeral_3_eq_3)

text \<open>
  Claim C1 as stated fails for \<open>max_retries = 0\<close>: against a service that refuses every
  connection the call makes no request and returns \<^verbatim>\<open>None\<close> instead of raising.
\<close>

theorem call_llm_refused_zero_retries:
  "call_llm ''Write tests'' ''phi3:mini'' 0 refusing_world =
     (Inr None, refusing_world\<lparr>trace := [LlmCall ''Write tests'']\<rparr>)"
  by (simp add: call_llm_def call_llm_loop.simps emit_def refusing_world_def)

lemma loop_other:
  "a + int k < n \<Longrightarrow> \<forall>i \<in> {posts w ..< posts w + k}. transient (http w i) \<Longrightarrow>
   http w (posts w + k) = Raises e \<Longrightarrow> cls e \<noteq> ConnectionError \<Longrightarrow> cls e \<noteq> Timeout \<Longrightarrow>
   fst (call_llm_loop body n a w) = Inl (api_error e) \<and>
   posts (snd (call_llm_loop body n a w)) = posts w + k + 1 \<and>
   last (trace (snd (call_llm_loop body n a w))) = HttpPost OLLAMA_API_URL body 60"
proof (induction k arbitrary: a w)
  case 0
  then show ?case
    by (subst (1 2 3) call_llm_loop.simps) (simp add: requests_post_def emit_def)
next
  case (Suc k)
  let ?w = "\<lambda>d. sleep d (snd (requests_post OLLAMA_API_URL body 60 w))"
  from Suc.prems have "transient (http w (posts w))" by simp
  then obtain e' where e': "http w (posts w) = Raises e'" "cls e' = ConnectionError \<or> cls e' = Timeout"
    by (cases "http w (posts w)") auto
  have lt: "a < n - 1" using Suc.prems(1) by simp
  have step: "(a + 1) + int k < n \<and>
     (\<forall>i \<in> {posts (?w d) ..< posts (?w d) + k}. transient (http (?w d) i)) \<and>
     http (?w d) (posts (?w d) + k) = Raises e" for d
    using Suc.prems by (simp add: sleep_def requests_post_def emit_def)
  have ih: "fst (call_llm_loop body n (a + 1) (?w d)) = Inl (api_error e) \<and>
     posts (snd (call_llm_loop body n (a + 1) (?w d))) = posts (?w d) + k + 1 \<and>
     last (trace (snd (call_llm_loop body n (a + 1) (?w d)))) = HttpPost OLLAMA_API_URL body 60" for d
    using Suc.IH step Suc.prems(4,5) by blast
  have p: "posts (?w d) = Suc (posts w)" for d
    by (simp add: sleep_def requests_post_def emit_def)
  show ?case
    using lt e' ih p
    apply (subst (1 2 3) call_llm_loop.simps)
    apply (auto simp: requests_post_def split: prod.splits)
    done
qed

text \<open>
  Claim C7. When a request fails with an exception that is neither a
  \<^verbatim>\<open>ConnectionError\<close> nor a \<^verbatim>\<open>Timeout\<close> (the \<^verbatim>\<open>HTTPError\<close> that \<^verbatim>\<open>raise_for_status\<close> raises
  for an error status is one), \<^verbatim>\<open>call_llm\<close> raises \<^verbatim>\<open>"LLM API error: "\<close> followed by the text
  of that exception, on that very attempt: the failing request is the last event of the
  call, so no delay and no further request follows it. The attempt may be the first one
  (\<open>k = 0\<close>) or follow \<open>k\<close> attempts that were retried.
\<close>

theorem call_llm_other_failure:
  assumes "int k < max_retries"
    and "\<forall>i \<in> {posts w ..< posts w + k}. transient (http w i)"
    and "http w (posts w + k) = Raises e"
    and "cls e \<noteq> ConnectionError" and "cls e \<noteq> Timeout"
  shows "fst (call_llm prompt model max_retries w) =
           Inl (Exn PlainException (''LLM API error: '' @ msg e)) \<and>
         posts (snd (call_llm prompt model max_retries w)) = posts w + k + 1 \<and>
         last (trace (snd (call_llm prompt model max_retries w))) =
           HttpPost OLLAMA_API_URL (Payload model prompt False) 60"
  using assms loop_other [of 0 k max_retries "emit (LlmCall prompt) w" e "Payload model prompt False"]
  by (simp add: call_llm_def emit_def api_error_def)

text \<open>
  With five attempts allowed, a timeout and a refused connection are retried and the
  status 500 that the third request meets ends the call.
\<close>

theorem call_llm_other_failure_witness:
  "fst (call_llm ''Write tests'' ''phi3:mini'' 5 failing_world) =
     Inl (Exn PlainException ''LLM API error: 500 Server Error: Internal Server Error'') \<and>
   posts (snd (call_llm ''Write tests'' ''phi3:mini'' 5 failing_world)) = 3 \<and>
   last (trace (snd (call_llm ''Write tests'' ''phi3:mini'' 5 failing_world))) =
     HttpPost OLLAMA_API_URL (Payload ''phi3:mini'' ''Write tests'' False) 60"
  using call_llm_other_failure [of 2 5 failing_world
      "Exn RequestError ''500 Server Error: Internal Server Error''" "''Write tests''" "''phi3:mini''"]
  by (simp add: failing_world_def)

text \<open>
  Claim C9. With \<open>max_retries \<le> 0\<close> the loop body never runs: \<^verbatim>\<open>call_llm\<close> returns
  \<^verbatim>\<open>None\<close>, and the world is the one it was called in but for the record of the call
  itself: no request, no delay, no exception.
\<close>

theorem call_llm_no_attempts:
  "max_retries \<le> 0 \<Longrightarrow>
   call_llm prompt model max_retries w = (Inr None, w\<lparr>trace := trace w @ [LlmCall prompt]\<rparr>)"
  by (simp add: call_llm_def call_llm_loop.simps emit_def)

theorem call_llm_no_attempts_witness:
  "(-1::int) \<le> 0 \<and>
   call_llm ''Write tests'' ''phi3:mini'' (-1) failing_world =
     (Inr None, failing_world\<lparr>trace := [LlmCall ''Write tests'']\<rparr>)"
  using call_llm_no_attempts [of "-1" "''Write tests''" "''phi3:mini''" failing_world]
  by (simp add: failing_world_def)

section \<open>The build adapter: results and the build directory\<close>

lemma find_entry_put_entry_same:
  "find_entry (entry_name e) (put_entry e es) = Some e"
  by (induction es) auto

lemma find_entry_put_entry_other:
  "n \<noteq> entry_name e \<Longrightarrow> find_entry n (put_entry e es) = find_entry n es"
  by (induction es) auto

lemma mkdirs_resolve:
  "mkdirs cs es = Inr t \<Longrightarrow> \<exists>ch. resolve cs t = Some (IsDir ch)"
proof (induction cs arbitrary: es t)
  case Nil
  then show ?case by simp
next
  case (Cons d cs)
  show ?case
  proof (cases "find_entry d es")
    case None
    with Cons.prems obtain ch' where ch': "mkdirs cs [] = Inr ch'" "t = put_entry (Dir d ch') es"
      by (auto split: sum.splits)
    from Cons.IH [OF ch'(1)] obtain ch where "resolve cs ch' = Some (IsDir ch)" ..
    then show ?thesis
      using ch'(2) find_entry_put_entry_same [of "Dir d ch'" es] by simp
  next
    case (Some e)
    show ?thesis
    proof (cases e)
      case (File n c)
      with Some Cons.prems show ?thesis by simp
    next
      case (Dir n sub)
      with Some Cons.prems obtain ch' where ch': "mkdirs cs sub = Inr ch'" "t = put_entry (Dir d ch') es"
        by (auto split: sum.splits)
      from Cons.IH [OF ch'(1)] obtain ch where "resolve cs ch' = Some (IsDir ch)" ..
      then show ?thesis
        using ch'(2) find_entry_put_entry_same [of "Dir d ch'" es] by simp
    qed
  qed
qed

lemma os_makedirs_is_dir:
  "fst (os_makedirs p w) = Inr () \<Longrightarrow> is_dir p (snd (os_makedirs p w))"
  using mkdirs_resolve [of "components p" "fs w"]
  by (auto simp: os_makedirs_def is_dir_def dir_at_def emit_def Let_def split: sum.splits)

lemma os_makedirs_frame:
  "tool (snd (os_makedirs p w)) = tool w"
  "effect (snd (os_makedirs p w)) = effect w"
  "trace (snd (os_makedirs p w)) = trace w @ [Makedirs p]"
  by (auto simp: os_makedirs_def emit_def Let_def split: sum.splits)

lemma subprocess_run_frame:
  "fst (subprocess_run argv cwd w) = tool w argv cwd"
  "tool (snd (subprocess_run argv cwd w)) = tool w"
  "effect (snd (subprocess_run argv cwd w)) = effect w"
  "trace (snd (subprocess_run argv cwd w)) = trace w @ [Run argv cwd]"
  by (auto simp: subprocess_run_def emit_def split: proc_outcome.splits)

lemma subprocess_run_keeps_dir:
  "\<forall>t. dir_at p t \<longrightarrow> dir_at p (effect w argv cwd t) \<Longrightarrow> is_dir p w \<Longrightarrow>
   is_dir p (snd (subprocess_run argv cwd w))"
  by (auto simp: subprocess_run_def emit_def is_dir_def split: proc_outcome.splits)

text \<open>
  Claim C5, as amended. When the build directory can be created: if the configure step
  exits with a non-zero status, \<^verbatim>\<open>build_project\<close> returns \<^verbatim>\<open>False\<close> with the decoded error
  output of the configure step; if the configure step exits with 0 and the build step
  with a non-zero status, it returns \<^verbatim>\<open>False\<close> with the decoded error output of the build
  step; if both exit with 0, it returns \<^verbatim>\<open>True\<close> with the decoded standard output of the
  build step alone. The output of the configure step is not part of the result of a
  successful call.
\<close>

theorem build_project_result:
  assumes "fst (os_makedirs build_dir w) = Inr ()"
  shows "(tool w (cmake_cmd project_dir) build_dir = Exited rc out err \<and> rc \<noteq> 0 \<and>
          decode err = Inr log
            \<longrightarrow> fst (build_project project_dir build_dir w) = Inr (False, log))
       \<and> (tool w (cmake_cmd project_dir) build_dir = Exited 0 out err \<and>
          tool w make_cmd build_dir = Exited rc2 out2 err2 \<and> rc2 \<noteq> 0 \<and> decode err2 = Inr log
            \<longrightarrow> fst (build_project project_dir build_dir w) = Inr (False, log))
       \<and> (tool w (cmake_cmd project_dir) build_dir = Exited 0 out err \<and>
          tool w make_cmd build_dir = Exited 0 out2 err2 \<and> decode out2 = Inr log
            \<longrightarrow> fst (build_project project_dir build_dir w) = Inr (True, log))"
  using assms os_makedirs_frame(1) [of build_dir w]
  by (cases "os_makedirs build_dir w")
     (auto simp: build_project_def subprocess_run_def emit_def called_process_error_def)

lemma repo_build_dir_creatable:
  "fst (os_makedirs ''/repo/build'' (repo_world c b t)) = Inr ()"
  by (simp add: os_makedirs_def repo_world_def repo_fs_def emit_def components_def)

text \<open>A failing configure step, a failing build step, and two steps that succeed.\<close>

theorem build_project_result_witness:
  "fst (build_project ''/repo/test_projects/orgChartApi-master'' ''/repo/build'' (repo_world 1 0 0)) =
     Inr (False, ''CMake Error'') \<and>
   fst (build_project ''/repo/test_projects/orgChartApi-master'' ''/repo/build'' (repo_world 0 2 0)) =
     Inr (False, ''error: X'') \<and>
   fst (build_project ''/repo/test_projects/orgChartApi-master'' ''/repo/build'' (repo_world 0 0 0)) =
     Inr (True, ''built'')"
  using
    build_project_result [OF repo_build_dir_creatable, of 1 0 0
      "''/repo/test_projects/orgChartApi-master''" 1 "Encoded ''configured''" "Encoded ''CMake Error''"
      "''CMake Error''"]
    build_project_result [OF repo_build_dir_creatable, of 0 2 0
      "''/repo/test_projects/orgChartApi-master''" _ "Encoded ''configured''" "Encoded []"
      "''error: X''" 2 "Encoded ''built''" "Encoded ''error: X''"]
    build_project_result [OF repo_build_dir_creatable, of 0 0 0
      "''/repo/test_projects/orgChartApi-master''" _ "Encoded ''configured''" "Encoded []"
      "''built''" _ "Encoded ''built''" "Encoded []"]
  by (simp add: repo_world_def cmake_cmd_def make_cmd_def)

text \<open>
  Claim C5 as stated fails where it promises the combined output of the two steps: the
  configure step prints \<open>configured\<close>, the build step prints \<open>built\<close>, both exit with 0,
  and the call returns \<open>built\<close> only.
\<close>

theorem build_project_output_not_combined:
  "tool (repo_world 0 0 0) (cmake_cmd ''/repo/test_projects/orgChartApi-master'') ''/repo/build'' =
     Exited 0 (Encoded ''configured'') (Encoded []) \<and>
   tool (repo_world 0 0 0) make_cmd ''/repo/build'' = Exited 0 (Encoded ''built'') (Encoded []) \<and>
   fst (build_project ''/repo/test_projects/orgChartApi-master'' ''/repo/build'' (repo_world 0 0 0)) =
     Inr (True, ''built'')"
  by (simp add: build_project_def os_makedirs_def repo_world_def repo_fs_def subprocess_run_def
      emit_def components_def cmake_cmd_def make_cmd_def)



lemma put_file_keeps_dir:
  "put_file cs c t = Inr t' \<Longrightarrow> resolve ps t = Some (IsDir ch) \<Longrightarrow>
   \<exists>ch'. resolve ps t' = Some (IsDir ch')"
proof (induction cs c t arbitrary: t' ps ch rule: put_file.induct)
  case (1 content es)
  then show ?case by simp
next
  case (2 n content es)
  show ?case
  proof (cases ps)
    case Nil
    then show ?thesis by simp
  next
    case (Cons q qs)
    have t': "t' = put_entry (File n content) es" and not_dir: "\<And>m sub. find_entry n es \<noteq> Some (Dir m sub)"
      using "2.prems"(1) by (auto split: option.splits entry.splits)
    have "q \<noteq> n"
      using "2.prems"(2) Cons not_dir by (auto split: option.splits entry.splits if_splits)
    then show ?thesis
      using "2.prems"(2) Cons t' by (simp add: find_entry_put_entry_other)
  qed
next
  case (3 d c2 rest content es)
  from "3.prems"(1) obtain m sub sub' where sub: "find_entry d es = Some (Dir m sub)"
      "put_file (c2 # rest) content sub = Inr sub'" "t' = put_entry (Dir d sub') es"
    by (auto split: option.splits entry.splits sum.splits)
  show ?case
  proof (cases ps)
    case Nil
    then show ?thesis by simp
  next
    case (Cons q qs)
    show ?thesis
    proof (cases "q = d")
      case True
      then have "resolve qs sub = Some (IsDir ch)" using "3.prems"(2) Cons sub(1) by simp
      from "3.IH" [OF sub(1) refl sub(2) this] obtain ch' where "resolve qs sub' = Some (IsDir ch')" ..
      then show ?thesis
        using True Cons sub(3) find_entry_put_entry_same [of "Dir d sub'" es] by simp
    next
      case False
      then show ?thesis
        using "3.prems"(2) Cons sub(3) by (simp add: find_entry_put_entry_other)
    qed
  qed
qed

lemma cmake_effect_keeps_dir: "dir_at p t \<Longrightarrow> dir_at p (cmake_effect argv cwd t)"
proof (cases "put_file (components cwd @ [''CMakeCache.txt'']) ''# cache'' t")
  case (Inl e)
  then show "dir_at p t \<Longrightarrow> dir_at p (cmake_effect argv cwd t)" by simp
next
  case (Inr t')
  assume "dir_at p t"
  then obtain ch where "resolve (components p) t = Some (IsDir ch)"
    by (auto simp: dir_at_def split: option.splits node.splits)
  from put_file_keeps_dir [OF Inr this] show "dir_at p (cmake_effect argv cwd t)"
    using Inr \<open>dir_at p t\<close> by (auto simp: dir_at_def)
qed

text \<open>
  Claim C10. The first thing \<^verbatim>\<open>build_project\<close> does is \<^verbatim>\<open>os.makedirs(build_dir)\<close>, before any
  tool runs. Whenever the call returns a result, success or failure, or has run a tool at
  all, \<^verbatim>\<open>os.makedirs\<close> has succeeded, so the build directory exists when the first tool
  is started; and it exists in the world that the call leaves, the tools being such that
  they do not remove their working directory. (The one call that creates no build
  directory is the one in which \<^verbatim>\<open>os.makedirs\<close> itself raises; it runs no tool and returns
  nothing.)
\<close>

theorem build_dir_created:
  "(\<exists>evs. events_since w (snd (build_project project_dir build_dir w)) = Makedirs build_dir # evs) \<and>
   ((fst (build_project project_dir build_dir w) = Inr r \<or>
     tools_run (events_since w (snd (build_project project_dir build_dir w))) \<noteq> []) \<and>
    (\<forall>argv t. dir_at build_dir t \<longrightarrow> dir_at build_dir (effect w argv build_dir t))
      \<longrightarrow> is_dir build_dir (snd (os_makedirs build_dir w)) \<and>
          is_dir build_dir (snd (build_project project_dir build_dir w)))"
proof -
  obtain m w1 where m: "os_makedirs build_dir w = (m, w1)" by (cases "os_makedirs build_dir w")
  have w1: "tool w1 = tool w" "effect w1 = effect w" "trace w1 = trace w @ [Makedirs build_dir]"
    using os_makedirs_frame [of build_dir w] m by simp_all
  have first: "\<exists>evs. events_since w (snd (build_project project_dir build_dir w)) = Makedirs build_dir # evs"
    using m w1
    by (auto simp: build_project_def subprocess_run_def events_since_def emit_def
             split: sum.splits proc_outcome.splits)
  have ran: "m = Inr ()"
    if "fst (build_project project_dir build_dir w) = Inr r \<or>
        tools_run (events_since w (snd (build_project project_dir build_dir w))) \<noteq> []"
    using that m w1 by (cases m) (auto simp: build_project_def events_since_def)
  have kept: "is_dir build_dir (snd (build_project project_dir build_dir w))"
    if "m = Inr ()" and keep: "\<forall>argv t. dir_at build_dir t \<longrightarrow> dir_at build_dir (effect w argv build_dir t)"
  proof -
    have d1: "is_dir build_dir w1" using os_makedirs_is_dir [of build_dir w] m that(1) by simp
    define w2 where "w2 = snd (subprocess_run (cmake_cmd project_dir) build_dir w1)"
    have d2: "is_dir build_dir w2"
      unfolding w2_def using keep w1(2) d1 by (intro subprocess_run_keeps_dir) simp_all
    have e2: "effect w2 = effect w" unfolding w2_def using w1(2) by (simp add: subprocess_run_frame)
    define w3 where "w3 = snd (subprocess_run make_cmd build_dir w2)"
    have d3: "is_dir build_dir w3"
      unfolding w3_def using keep e2 d2 by (intro subprocess_run_keeps_dir) simp_all
    have "snd (build_project project_dir build_dir w) = w2 \<or> snd (build_project project_dir build_dir w) = w3"
      using m that(1) unfolding w2_def w3_def
      by (auto simp: build_project_def split: prod.splits proc_outcome.splits sum.splits)
    then show ?thesis using d2 d3 by auto
  qed
  show ?thesis
    using first ran kept os_makedirs_is_dir [of build_dir w] m by auto
qed

text \<open>
  The build step fails: the call returns \<^verbatim>\<open>False\<close>, and the build directory, which was
  not there, now is.
\<close>

theorem build_dir_created_witness:
  "\<not> is_dir ''/repo/build'' (repo_world 0 2 0) \<and>
   fst (build_project ''/repo/test_projects/orgChartApi-master'' ''/repo/build'' (repo_world 0 2 0)) =
     Inr (False, ''error: X'') \<and>
   is_dir ''/repo/build''
     (snd (build_project ''/repo/test_projects/orgChartApi-master'' ''/repo/build'' (repo_world 0 2 0)))"
proof -
  have r: "fst (build_project ''/repo/test_projects/orgChartApi-master'' ''/repo/build'' (repo_world 0 2 0)) =
     Inr (False, ''error: X'')"
    by (simp add: build_project_def os_makedirs_def repo_world_def repo_fs_def subprocess_run_def
        emit_def components_def cmake_cmd_def make_cmd_def called_process_error_def)
  have n: "\<not> is_dir ''/repo/build'' (repo_world 0 2 0)"
    by (simp add: is_dir_def dir_at_def repo_world_def repo_fs_def components_def)
  have k: "\<forall>argv t. dir_at ''/repo/build'' t \<longrightarrow>
      dir_at ''/repo/build'' (effect (repo_world 0 2 0) argv ''/repo/build'' t)"
    using cmake_effect_keeps_dir by (simp add: repo_world_def)
  from r n k build_dir_created [of "repo_world 0 2 0" "''/repo/test_projects/orgChartApi-master''"
      "''/repo/build''" "(False, ''error: X'')"]
  show ?thesis by blast
qed

section \<open>The driver: build, tests and coverage\<close>

lemma llm_prompts_append [simp]: "llm_prompts (xs @ ys) = llm_prompts xs @ llm_prompts ys"
  by (induction xs rule: llm_prompts.induct) auto

lemma tools_run_append [simp]: "tools_run (xs @ ys) = tools_run xs @ tools_run ys"
  by (induction xs rule: tools_run.induct) auto

lemma call_llm_loop_events:
  "\<exists>evs. trace (snd (call_llm_loop body n a w)) = trace w @ evs \<and>
         llm_prompts evs = [] \<and> tools_run evs = [] \<and>
         fs (snd (call_llm_loop body n a w)) = fs w"
proof (induction body n a w rule: call_llm_loop.induct)
  case (1 body n a w)
  define w1 where "w1 = snd (requests_post OLLAMA_API_URL body 60 w)"
  have t1: "trace w1 = trace w @ [HttpPost OLLAMA_API_URL body 60]" "fs w1 = fs w"
    by (simp_all add: w1_def requests_post_def emit_def)
  show ?case
  proof (cases "a < n")
    case False
    then show ?thesis by (subst (1 2) call_llm_loop.simps) simp
  next
    case True
    show ?thesis
    proof (cases "http w (posts w)")
      case (Completion answer)
      then have "requests_post OLLAMA_API_URL body 60 w = (Completion answer, w1)"
        by (simp add: w1_def requests_post_def)
      with True t1 show ?thesis
        by (subst (1 2) call_llm_loop.simps) simp
    next
      case (Raises e)
      have rp: "requests_post OLLAMA_API_URL body 60 w = (Raises e, w1)"
        using Raises by (simp add: w1_def requests_post_def)
      consider (retry2) "cls e = ConnectionError" "a < n - 1"
        | (retry1) "cls e \<noteq> ConnectionError" "cls e = Timeout" "a < n - 1"
        | (stop) "\<not> a < n - 1 \<or> (cls e \<noteq> ConnectionError \<and> cls e \<noteq> Timeout)"
        by blast
      then show ?thesis
      proof cases
        case retry2
        from "1.IH"(1) [OF True rp [symmetric] refl retry2]
        obtain evs where
          "trace (snd (call_llm_loop body n (a + 1) (sleep 2 w1))) = trace (sleep 2 w1) @ evs"
          "llm_prompts evs = []" "tools_run evs = []"
          "fs (snd (call_llm_loop body n (a + 1) (sleep 2 w1))) = fs (sleep 2 w1)"
          by blast
        then show ?thesis
          using True retry2 rp t1
          by (subst (1 2) call_llm_loop.simps) (simp add: sleep_def emit_def)
      next
        case retry1
        from "1.IH"(2) [OF True rp [symmetric] refl retry1]
        obtain evs where
          "trace (snd (call_llm_loop body n (a + 1) (sleep 1 w1))) = trace (sleep 1 w1) @ evs"
          "llm_prompts evs = []" "tools_run evs = []"
          "fs (snd (call_llm_loop body n (a + 1) (sleep 1 w1))) = fs (sleep 1 w1)"
          by blast
        then show ?thesis
          using True retry1 rp t1
          by (subst (1 2) call_llm_loop.simps) (simp add: sleep_def emit_def)
      next
        case stop
        then show ?thesis
          using True rp t1
          by (subst (1 2) call_llm_loop.simps) auto
      qed
    qed
  qed
qed

lemma call_llm_events:
  "\<exists>evs. trace (snd (call_llm prompt model n w)) = trace w @ LlmCall prompt # evs \<and>
         llm_prompts evs = [] \<and> tools_run evs = []"
  using call_llm_loop_events [of "Payload model prompt False" n 0 "emit (LlmCall prompt) w"]
  by (auto simp: call_llm_def emit_def)

lemma call_llm_fs: "fs (snd (call_llm prompt model n w)) = fs w"
  using call_llm_loop_events [of "Payload model prompt False" n 0 "emit (LlmCall prompt) w"]
  by (auto simp: call_llm_def emit_def)

lemma build_project_events:
  "\<exists>evs. trace (snd (build_project project_dir build_dir w)) = trace w @ evs \<and>
         llm_prompts evs = [] \<and> set (tools_run evs) \<subseteq> {''cmake''}"
  by (auto simp: build_project_def os_makedirs_def subprocess_run_def emit_def Let_def
        cmake_cmd_def make_cmd_def
        split: sum.splits proc_outcome.splits prod.splits)

lemma build_project_tool [simp]: "tool (snd (build_project project_dir build_dir w)) = tool w"
  by (auto simp: build_project_def os_makedirs_def subprocess_run_def emit_def Let_def
        split: sum.splits proc_outcome.splits prod.splits)

lemma run_tests_events:
  "trace (snd (run_tests build_dir w)) = trace w @ [Run test_cmd build_dir]"
  by (auto simp: run_tests_def subprocess_run_def emit_def split: sum.splits proc_outcome.splits)

lemma run_tests_fails:
  "tool w test_cmd build_dir = Exited rc out err \<Longrightarrow> rc \<noteq> 0 \<Longrightarrow>
   fst (run_tests build_dir w) \<noteq> Inr (True, text)"
  by (auto simp: run_tests_def subprocess_run_def emit_def split: sum.splits proc_outcome.splits)

text \<open>
  Claim C6. Let \<^verbatim>\<open>build_project\<close> return a result. If it reports failure, steps 3 and 4 of
  \<^verbatim>\<open>main\<close> never run the test runner, and, the build-fix template being readable, they call
  the model client exactly once, with the prompt that ends in the build log that
  \<^verbatim>\<open>build_project\<close> returned. If it reports success and the test runner exits with a
  non-zero status, the test runner is the last tool run: neither coverage tool is run.
\<close>

theorem build_and_test_failure_paths:
  assumes "fst (build_project project_dir build_dir w) = Inr (ok, build_log)"
  shows "(\<not> ok \<longrightarrow>
            ''ctest'' \<notin> set (tools_run (events_since w (snd (build_and_test yaml_dir project_dir build_dir w)))))
       \<and> (\<not> ok \<and> read_file (path_join yaml_dir ''fix_build.yaml'')
                    (snd (build_project project_dir build_dir w)) = Inr template \<longrightarrow>
            llm_prompts (events_since w (snd (build_and_test yaml_dir project_dir build_dir w))) =
              [template @ newline @ newline @ ''Build Log:'' @ newline @ build_log])
       \<and> (ok \<and> tool w test_cmd build_dir = Exited rc out err \<and> rc \<noteq> 0 \<longrightarrow>
            ''ctest'' \<in> set (tools_run (events_since w (snd (build_and_test yaml_dir project_dir build_dir w)))) \<and>
            ''lcov'' \<notin> set (tools_run (events_since w (snd (build_and_test yaml_dir project_dir build_dir w)))) \<and>
            ''genhtml'' \<notin> set (tools_run (events_since w (snd (build_and_test yaml_dir project_dir build_dir w)))))"
proof -
  define w1 where "w1 = snd (build_project project_dir build_dir w)"
  define w' where "w' = snd (build_and_test yaml_dir project_dir build_dir w)"
  have bp: "build_project project_dir build_dir w = (Inr (ok, build_log), w1)"
    using assms by (simp add: w1_def prod_eq_iff)
  from build_project_events [of project_dir build_dir w] bp
  obtain evs where evs: "trace w1 = trace w @ evs" "llm_prompts evs = []"
      "set (tools_run evs) \<subseteq> {''cmake''}"
    by auto
  have tool1: "tool w1 = tool w"
    using build_project_tool [of project_dir build_dir w] bp by simp
  have no_ctest: "''ctest'' \<notin> set (tools_run (events_since w w'))" if "\<not> ok"
  proof (cases "read_file (path_join yaml_dir ''fix_build.yaml'') w1")
    case (Inl e)
    then have "w' = w1" using bp that by (simp add: w'_def build_and_test_def)
    then show ?thesis using evs by (auto simp: events_since_def)
  next
    case (Inr yaml_prompt)
    let ?p = "yaml_prompt @ newline @ newline @ ''Build Log:'' @ newline @ build_log"
    obtain evs2 where evs2: "trace (snd (call_llm ?p ''phi3:mini'' 3 w1)) = trace w1 @ LlmCall ?p # evs2"
        "tools_run evs2 = []"
      using call_llm_events by blast
    have "w' = snd (call_llm ?p ''phi3:mini'' 3 w1)"
      using bp that Inr by (simp add: w'_def build_and_test_def)
    then have "events_since w w' = evs @ LlmCall ?p # evs2"
      using evs(1) evs2(1) by (simp add: events_since_def)
    then show ?thesis using evs(3) evs2(2) by auto
  qed
  have once: "llm_prompts (events_since w w') =
      [template @ newline @ newline @ ''Build Log:'' @ newline @ build_log]"
    if "\<not> ok" and t: "read_file (path_join yaml_dir ''fix_build.yaml'') w1 = Inr template"
  proof -
    let ?p = "template @ newline @ newline @ ''Build Log:'' @ newline @ build_log"
    obtain evs2 where evs2: "trace (snd (call_llm ?p ''phi3:mini'' 3 w1)) = trace w1 @ LlmCall ?p # evs2"
        "llm_prompts evs2 = []"
      using call_llm_events by blast
    have "w' = snd (call_llm ?p ''phi3:mini'' 3 w1)"
      using bp that by (simp add: w'_def build_and_test_def)
    then have "events_since w w' = evs @ LlmCall ?p # evs2"
      using evs(1) evs2(1) by (simp add: events_since_def)
    then show ?thesis using evs(2) evs2(2) by simp
  qed
  have tests: "''ctest'' \<in> set (tools_run (events_since w w')) \<and>
      ''lcov'' \<notin> set (tools_run (events_since w w')) \<and>
      ''genhtml'' \<notin> set (tools_run (events_since w w'))"
    if "ok" and "tool w test_cmd build_dir = Exited rc out err" and "rc \<noteq> 0"
  proof -
    have "w' = snd (run_tests build_dir w1)"
      using bp that tool1
      by (auto simp: w'_def build_and_test_def run_tests_def subprocess_run_def split: sum.splits)
    then have "events_since w w' = evs @ [Run test_cmd build_dir]"
      using evs(1) run_tests_events [of build_dir w1] by (simp add: events_since_def)
    then show ?thesis using evs(3) by (auto simp: test_cmd_def)
  qed
  show ?thesis
    using no_ctest once tests unfolding w1_def w'_def by blast
qed

lemma repo_build_fails:
  "fst (build_project ''/repo/test_projects/orgChartApi-master'' ''/repo/build'' (repo_world 0 2 0)) =
     Inr (False, ''error: X'')"
  by (simp add: build_project_def os_makedirs_def repo_world_def repo_fs_def subprocess_run_def
      emit_def components_def cmake_cmd_def make_cmd_def called_process_error_def)

lemma repo_build_succeeds:
  "fst (build_project ''/repo/test_projects/orgChartApi-master'' ''/repo/build'' (repo_world 0 0 t)) =
     Inr (True, ''built'')"
  by (simp add: build_project_def os_makedirs_def repo_world_def repo_fs_def subprocess_run_def
      emit_def components_def cmake_cmd_def make_cmd_def called_process_error_def)

lemma repo_fix_template:
  "read_file (path_join ''/repo/src/yaml_prompts'' ''fix_build.yaml'')
     (snd (build_project ''/repo/test_projects/orgChartApi-master'' ''/repo/build'' (repo_world 0 2 0))) =
   Inr ''Fix the build.''"
  by (simp add: build_project_def os_makedirs_def repo_world_def repo_fs_def subprocess_run_def
      emit_def components_def cmake_cmd_def make_cmd_def called_process_error_def read_file_def
      path_join_def suffix_to_prefix)

theorem build_and_test_failure_paths_witness:
  "llm_prompts (events_since (repo_world 0 2 0)
      (snd (build_and_test ''/repo/src/yaml_prompts'' ''/repo/test_projects/orgChartApi-master''
              ''/repo/build'' (repo_world 0 2 0)))) =
     [''Fix the build.'' @ newline @ newline @ ''Build Log:'' @ newline @ ''error: X''] \<and>
   ''ctest'' \<notin> set (tools_run (events_since (repo_world 0 2 0)
      (snd (build_and_test ''/repo/src/yaml_prompts'' ''/repo/test_projects/orgChartApi-master''
              ''/repo/build'' (repo_world 0 2 0))))) \<and>
   ''ctest'' \<in> set (tools_run (events_since (repo_world 0 0 8)
      (snd (build_and_test ''/repo/src/yaml_prompts'' ''/repo/test_projects/orgChartApi-master''
              ''/repo/build'' (repo_world 0 0 8))))) \<and>
   ''lcov'' \<notin> set (tools_run (events_since (repo_world 0 0 8)
      (snd (build_and_test ''/repo/src/yaml_prompts'' ''/repo/test_projects/orgChartApi-master''
              ''/repo/build'' (repo_world 0 0 8))))) \<and>
   ''genhtml'' \<notin> set (tools_run (events_since (repo_world 0 0 8)
      (snd (build_and_test ''/repo/src/yaml_prompts'' ''/repo/test_projects/orgChartApi-master''
              ''/repo/build'' (repo_world 0 0 8)))))"
  using
    build_and_test_failure_paths [OF repo_build_fails,
      where yaml_dir = "''/repo/src/yaml_prompts''" and template = "''Fix the build.''"]
    build_and_test_failure_paths [OF repo_build_succeeds [of 8],
      where yaml_dir = "''/repo/src/yaml_prompts''" and rc = 8 and out = "Encoded ''tests ran''"
        and err = "Encoded []"]
    repo_fix_template
  by (simp add: repo_world_def test_cmd_def make_cmd_def)

section \<open>Discovery of the source files\<close>

lemma path_join_valid: "valid_name n \<Longrightarrow> path_join a n = dir_prefix a @ n"
  by (cases n) (auto simp: path_join_def dir_prefix_def valid_name_def)

lemma dir_prefix_path_join:
  assumes "valid_name n"
  shows "dir_prefix (path_join a n) = dir_prefix a @ n @ ''/''"
proof -
  have "path_join a n = dir_prefix a @ n" using assms by (rule path_join_valid)
  moreover have "dir_prefix a @ n \<noteq> []" using assms by (simp add: valid_name_def)
  moreover have "\<not> suffix ''/'' (dir_prefix a @ n)"
  proof
    assume "suffix ''/'' (dir_prefix a @ n)"
    then obtain zs where "dir_prefix a @ n = zs @ ''/''" by (auto simp: suffix_def)
    then have "last (dir_prefix a @ n) = CHR ''/''" by simp
    then have "last n = CHR ''/''" using assms by (simp add: valid_name_def)
    then show False using assms last_in_set [of n] by (auto simp: valid_name_def)
  qed
  ultimately show ?thesis by (simp add: dir_prefix_def)
qed

lemma found_in_unfold:
  "found_in start es =
     (if sublist ''third_party'' start then []
      else map (path_join start) (filter has_source_suffix [n. File n c \<leftarrow> es]))
     @ concat (map (\<lambda>e. case e of Dir n ch \<Rightarrow> found_in (path_join start n) ch | File n c \<Rightarrow> []) es)"
proof -
  let ?scan = "\<lambda>(root, dirs, files).
                    if sublist ''third_party'' root then []
                    else map (path_join root) (filter has_source_suffix files)"
  have "concat (map ?scan (concat (map (\<lambda>e. case e of Dir n ch \<Rightarrow> walk (path_join start n) ch | File n c \<Rightarrow> []) es)))
      = concat (map (\<lambda>e. case e of Dir n ch \<Rightarrow> found_in (path_join start n) ch | File n c \<Rightarrow> []) es)"
    by (induction es) (auto simp: found_in_def split: entry.splits)
  then show ?thesis
    by (simp add: found_in_def)
qed

lemma find_entry_in_set: "find_entry n es = Some e \<Longrightarrow> e \<in> set es \<and> entry_name e = n"
  by (induction es) (auto split: if_splits)

lemma well_formed_sub: "well_formed es \<Longrightarrow> Dir n ch \<in> set es \<Longrightarrow> well_formed ch"
  by (subst (asm) well_formed.simps) fastforce

lemma well_formed_names: "well_formed es \<Longrightarrow> e \<in> set es \<Longrightarrow> valid_name (entry_name e)"
  by (subst (asm) well_formed.simps) fastforce


lemma well_formed_resolve:
  "well_formed es \<Longrightarrow> resolve cs es = Some (IsDir ch) \<Longrightarrow> well_formed ch"
proof (induction cs arbitrary: es)
  case Nil
  then show ?case by simp
next
  case (Cons c cs)
  then show ?case
    by (auto split: option.splits entry.splits if_splits dest!: find_entry_in_set
             dest: well_formed_sub)
qed


lemma found_in_shape:
  "well_formed es \<Longrightarrow> p \<in> set (found_in start es) \<Longrightarrow>
   \<exists>root f. p = path_join root f \<and> \<not> sublist ''third_party'' root \<and> valid_name f \<and> has_source_suffix f \<and>
     (\<exists>rel. p = dir_prefix start @ rel \<and>
        ((rel = f \<and> root = start) \<or> (\<exists>d ch r. Dir d ch \<in> set es \<and> rel = d @ ''/'' @ r)))"
proof (induction start es arbitrary: p rule: walk.induct)
  case (1 start es)
  from "1.prems"(2) consider
    (here) "\<not> sublist ''third_party'' start" "p \<in> path_join start ` set (filter has_source_suffix [n. File n c \<leftarrow> es])"
    | (sub) e where "e \<in> set es" "p \<in> set (case e of Dir n ch \<Rightarrow> found_in (path_join start n) ch | File n c \<Rightarrow> [])"
    by (subst (asm) found_in_unfold) (auto split: if_splits)
  then show ?case
  proof cases
    case here
    then obtain f c where f: "p = path_join start f" "has_source_suffix f" "File f c \<in> set es"
      by auto
    then have v: "valid_name f" using well_formed_names [OF "1.prems"(1)] by fastforce
    show ?thesis
      using f v here(1) path_join_valid [OF v, of start] by blast
  next
    case sub
    then obtain d ch where e: "e = Dir d ch" "p \<in> set (found_in (path_join start d) ch)"
      by (cases e) auto
    have wf: "well_formed ch" using "1.prems"(1) sub(1) e(1) well_formed_sub by blast
    have v: "valid_name d" using well_formed_names [OF "1.prems"(1) sub(1)] e(1) by simp
    from "1.IH" [OF sub(1) e(1) wf e(2)]
    obtain root f rel where r: "p = path_join root f" "\<not> sublist ''third_party'' root" "valid_name f"
      "has_source_suffix f" "p = dir_prefix (path_join start d) @ rel"
      by blast
    have "p = dir_prefix start @ d @ ''/'' @ rel"
      using r(5) dir_prefix_path_join [OF v, of start] by simp
    then show ?thesis using r(1-4) sub(1) e(1) by blast
  qed
qed


lemma split_path_not_Nil [simp]: "split_path a \<noteq> []"
  by (induction a) (auto split: list.splits)

lemma split_path_append_slash:
  "split_path (a @ CHR ''/'' # b) = split_path a @ split_path b"
  by (induction a) (auto split: list.splits)

lemma split_path_no_slash: "CHR ''/'' \<notin> set f \<Longrightarrow> split_path f = [f]"
  by (induction f) (auto split: list.splits)

lemma hd_split_path_prefix: "prefix (hd (split_path a)) a"
  by (induction a) (auto split: list.splits)

lemma split_path_sublist: "s \<in> set (split_path a) \<Longrightarrow> sublist s a"
proof (induction a arbitrary: s)
  case Nil
  then show ?case by simp
next
  case (Cons c cs)
  show ?case
  proof (cases "c = CHR ''/''")
    case True
    with Cons show ?thesis by (auto simp: sublist_Cons_right)
  next
    case False
    obtain h t where ht: "split_path cs = h # t" by (cases "split_path cs") auto
    with False Cons.prems have "s = c # h \<or> s \<in> set t" by simp
    then show ?thesis
    proof
      assume "s = c # h"
      moreover have "prefix h cs" using hd_split_path_prefix [of cs] ht by simp
      ultimately show ?thesis by (simp add: sublist_Cons_right)
    next
      assume "s \<in> set t"
      then have "sublist s cs" using Cons.IH ht by simp
      then show ?thesis by (simp add: sublist_Cons_right)
    qed
  qed
qed

lemma not_source_suffix_third_party: "\<not> has_source_suffix ''third_party''"
  by (simp add: has_source_suffix_def suffix_to_prefix)

lemma joined_segments:
  assumes "\<not> sublist ''third_party'' root" "valid_name f" "has_source_suffix f"
  shows "''third_party'' \<notin> set (split_path (path_join root f))"
proof -
  have f: "split_path f = [f]" "f \<noteq> ''third_party''"
    using assms(2,3) not_source_suffix_third_party
    by (auto simp: valid_name_def split_path_no_slash)
  have root: "''third_party'' \<notin> set (split_path r)" if "sublist r root" for r
    using split_path_sublist [of "''third_party''" r] that assms(1) sublist_order.order_trans by blast
  consider (empty) "root = []" | (slash) r where "root = r @ ''/''"
    | (plain) "root \<noteq> []" "\<not> suffix ''/'' root"
    by (auto simp: suffix_def)
  then show ?thesis
  proof cases
    case empty
    then show ?thesis using f assms(2) by (simp add: path_join_valid dir_prefix_def)
  next
    case slash
    then have "path_join root f = r @ CHR ''/'' # f"
      using assms(2) by (simp add: path_join_valid dir_prefix_def)
    moreover have "sublist r root" using slash by simp
    ultimately show ?thesis using f root by (simp add: split_path_append_slash)
  next
    case plain
    then have "path_join root f = root @ CHR ''/'' # f"
      using assms(2) by (simp add: path_join_valid dir_prefix_def)
    then show ?thesis using f root [of root] by (simp add: split_path_append_slash)
  qed
qed

lemma collect_cpp_files_found_in:
  "collect_cpp_files project_dir w =
     (case resolve (components project_dir) (fs w) of
        Some (IsDir es) \<Rightarrow> found_in project_dir es
      | _ \<Rightarrow> [])"
  by (simp add: collect_cpp_files_def os_walk_def found_in_def split: option.splits node.splits)

text \<open>
  Claim C2. In a well-formed tree, a path that has a segment \<open>third_party\<close> (a whole
  piece between two slashes, at whatever depth) is never among the files that
  \<^verbatim>\<open>collect_cpp_files\<close> returns: the directory that holds such a file has \<open>third_party\<close> in its
  path and is skipped, and no source file is itself named \<open>third_party\<close>.
\<close>

theorem discovery_excludes_third_party:
  assumes "well_formed (fs w)" and "''third_party'' \<in> set (split_path p)"
  shows "p \<notin> set (collect_cpp_files project_dir w)"
proof
  assume p: "p \<in> set (collect_cpp_files project_dir w)"
  then obtain es where es: "resolve (components project_dir) (fs w) = Some (IsDir es)"
      "p \<in> set (found_in project_dir es)"
    by (cases "resolve (components project_dir) (fs w)")
       (auto simp: collect_cpp_files_found_in split: node.splits)
  have "well_formed es" using well_formed_resolve [OF assms(1) es(1)] .
  from found_in_shape [OF this es(2)] obtain root f where
    "p = path_join root f" "\<not> sublist ''third_party'' root" "valid_name f" "has_source_suffix f"
    by blast
  then show False using joined_segments assms(2) by blast
qed


lemma repo_fs_well_formed: "well_formed (fs (repo_world c b t))"
  by (simp add: repo_world_def repo_fs_def well_formed.simps valid_name_def)


text \<open>The vendored file two levels below \<open>third_party\<close> exists and is not discovered.\<close>

theorem discovery_excludes_third_party_witness:
  "resolve (components ''/repo/test_projects/orgChartApi-master/third_party/json/json.cpp'')
      (fs (repo_world 0 0 0)) = Some (IsFile ''// vendored'') \<and>
   ''/repo/test_projects/orgChartApi-master/third_party/json/json.cpp''
      \<notin> set (collect_cpp_files ''/repo/test_projects/orgChartApi-master'' (repo_world 0 0 0))"
proof -
  have "resolve (components ''/repo/test_projects/orgChartApi-master/third_party/json/json.cpp'')
      (fs (repo_world 0 0 0)) = Some (IsFile ''// vendored'')"
    by (simp add: repo_world_def repo_fs_def components_def)
  moreover have "''third_party'' \<in>
      set (split_path ''/repo/test_projects/orgChartApi-master/third_party/json/json.cpp'')"
    by simp
  ultimately show ?thesis
    using discovery_excludes_third_party [OF repo_fs_well_formed] by blast
qed










section \<open>The generated test files\<close>

lemma path_join_relative: "\<not> prefix ''/'' b \<Longrightarrow> path_join a b = dir_prefix a @ b"
  by (simp add: path_join_def dir_prefix_def)

lemma generate_test_writes:
  "fs (generate_test yaml_dir test_dir cpp_file w) = fs w \<or>
   (\<exists>code. put_file (components (test_file_path test_dir cpp_file)) code (fs w) =
      Inr (fs (generate_test yaml_dir test_dir cpp_file w)))"
proof (cases "read_file cpp_file w")
  case (Inl e)
  then show ?thesis by (simp add: generate_test_def)
next
  case code: (Inr code)
  show ?thesis
  proof (cases "read_file (path_join yaml_dir ''initial.yaml'') w")
    case (Inl e)
    then show ?thesis using code by (simp add: generate_test_def)
  next
    case (Inr yaml_prompt)
    let ?c = "call_llm (yaml_prompt @ newline @ newline @ ''C++ Source File:'' @ newline @ code)
                ''phi3:mini'' 3 w"
    have f: "fs (snd ?c) = fs w" by (rule call_llm_fs)
    obtain r w1 where c: "?c = (r, w1)" by (cases ?c)
    with f have f1: "fs w1 = fs w" by simp
    show ?thesis
      using code Inr c f1
      by (auto simp: generate_test_def write_file_def split: sum.splits option.splits)
  qed
qed

text \<open>
  Claim C4, as amended. The test file of a source file is named after the base name of
  the source file alone: two source files get the same test file exactly when their base
  names are equal. One round of the generation loop changes the file system, if at all,
  by writing that one file.
\<close>

theorem test_file_per_base_name:
  "(test_file_path test_dir a = test_file_path test_dir b) = (basename a = basename b) \<and>
   (fs (generate_test yaml_dir test_dir a w) = fs w \<or>
    (\<exists>code. put_file (components (test_file_path test_dir a)) code (fs w) =
       Inr (fs (generate_test yaml_dir test_dir a w))))"
  using generate_test_writes [of yaml_dir test_dir a w]
  by (simp add: test_file_path_def path_join_relative)

text \<open>Source files with different base names get different test files.\<close>

theorem test_file_per_base_name_witness:
  "test_file_path ''/repo/generated_tests'' ''/repo/test_projects/orgChartApi-master/main.cc'' \<noteq>
   test_file_path ''/repo/generated_tests'' ''/repo/test_projects/orgChartApi-master/models/User.cc''"
  using test_file_per_base_name [of "''/repo/generated_tests''"
      "''/repo/test_projects/orgChartApi-master/main.cc''"
      "''/repo/test_projects/orgChartApi-master/models/User.cc''"]
  by (simp add: basename_def)

text \<open>
  Claim C4 as stated fails: discovery returns three different source files, two of them
  named \<^verbatim>\<open>User.cc\<close>; both are written to \<^verbatim>\<open>test_User.cc\<close>, and after the whole run the
  output directory holds two test files for the three source files.
\<close>

theorem test_files_collide:
  "collect_cpp_files ''/repo/test_projects/orgChartApi-master'' (repo_world 0 0 0) =
     [''/repo/test_projects/orgChartApi-master/main.cc'',
      ''/repo/test_projects/orgChartApi-master/models/User.cc'',
      ''/repo/test_projects/orgChartApi-master/controllers/User.cc''] \<and>
   test_file_path ''/repo/generated_tests'' ''/repo/test_projects/orgChartApi-master/models/User.cc'' =
     ''/repo/generated_tests/test_User.cc'' \<and>
   test_file_path ''/repo/generated_tests''
       ''/repo/test_projects/orgChartApi-master/controllers/User.cc'' =
     ''/repo/generated_tests/test_User.cc'' \<and>
   os_listdir ''/repo/generated_tests'' (snd (main ''/repo/src/main.py'' (repo_world 0 0 0))) =
     Inr [''test_main.cc'', ''test_User.cc'']"
  by code_simp

end
